theory Spec2Isabelle
  imports Main
begin

section \<open>The escape tokenizer of \<open>alot/utils/ansi.py\<close>\<close>

text \<open>
  Text is a list of characters and a position is an index into it.  The
  escape character \<open>'\033'\<close> has code 27.
\<close>

definition ESC :: char where
  "ESC = CHR 0x1B"

text \<open>
  The three character classes of \<open>csi_pattern\<close>, listed member by member:
  \<open>_b2 = [0-9:;<=>?]\<close>, \<open>_b3 = [ !"#$%&'()*+,-./]\<close> (inside the class
  \<open>,-.\<close> is the range from comma to full stop, which only adds the hyphen)
  and \<open>_b4 = [A-Z[\]^_`a-z{|}~]\<close> (the backslash escapes the closing
  bracket, so neither the backslash nor \<open>@\<close> is a final byte).
\<close>

definition param_bytes :: "char list" where
  "param_bytes = ''0123456789:;<=>?''"

definition intermediate_bytes :: "char list" where
  "intermediate_bytes =
     [CHR '' '', CHR ''!'', CHR 0x22, CHR ''#'', CHR ''$'', CHR ''%'', CHR ''&'', CHR 0x27,
      CHR ''('', CHR '')'', CHR ''*'', CHR ''+'', CHR '','', CHR ''-'', CHR ''.'', CHR ''/'']"

definition final_bytes :: "char list" where
  "final_bytes =
     ''ABCDEFGHIJKLMNOPQRSTUVWXYZ'' @ [CHR ''['', CHR '']'', CHR ''^'', CHR ''_'', CHR 0x60] @
     ''abcdefghijklmnopqrstuvwxyz'' @ [CHR ''{'', CHR ''|'', CHR ''}'', CHR ''~'']"

type_synonym csi_args = "string \<times> string \<times> string"

text \<open>
  \<open>parse_csi text pos\<close> is \<open>csi_pattern.match(text, pos)\<close>: the two
  characters \<open>ESC [\<close> at \<open>pos\<close>, then the longest run of parameter bytes, the
  longest run of intermediate bytes and one final byte.  The three classes
  are pairwise disjoint, so the greedy runs are the only way the pattern can
  match and backtracking never finds another.  A match returns the three
  groups and \<open>m.end()\<close>; the failure value \<open>(None, -1)\<close> of the source is
  \<open>None\<close> here (its position is never read by the caller).
\<close>

definition parse_csi :: "string \<Rightarrow> nat \<Rightarrow> (csi_args \<times> nat) option" where
  "parse_csi text pos =
     (if pos + 1 < length text \<and> text ! pos = ESC \<and> text ! (pos + 1) = CHR ''[''
      then
        let r1 = drop (pos + 2) text;
            pb = takeWhile (\<lambda>c. c \<in> set param_bytes) r1;
            r2 = dropWhile (\<lambda>c. c \<in> set param_bytes) r1;
            ib = takeWhile (\<lambda>c. c \<in> set intermediate_bytes) r2;
            r3 = dropWhile (\<lambda>c. c \<in> set intermediate_bytes) r2
        in (case r3 of
              [] \<Rightarrow> None
            | fb # _ \<Rightarrow>
                if fb \<in> set final_bytes
                then Some ((pb, ib, [fb]), pos + 2 + length pb + length ib + 1)
                else None)
      else None)"

text \<open>
  \<open>find_from c text j\<close> is \<open>text.find(c, j)\<close> for \<open>0 \<le> j\<close>: the least index
  \<open>p \<ge> j\<close> with \<open>text[p] = c\<close>, or \<open>None\<close> where Python returns \<open>-1\<close>.
\<close>

fun index_of :: "char \<Rightarrow> string \<Rightarrow> nat option" where
  "index_of c [] = None"
| "index_of c (x # xs) = (if x = c then Some 0 else map_option Suc (index_of c xs))"

definition find_from :: "char \<Rightarrow> string \<Rightarrow> nat \<Rightarrow> nat option" where
  "find_from c text j = map_option (\<lambda>n. j + n) (index_of c (drop j text))"

text \<open>The slice \<open>text[i:j]\<close> for \<open>0 \<le> i\<close> and \<open>0 \<le> j\<close>.\<close>

definition slice :: "string \<Rightarrow> nat \<Rightarrow> nat \<Rightarrow> string" where
  "slice text i j = take (j - i) (drop i text)"

text \<open>
  A yielded segment \<open>(code, args, text)\<close>.  \<open>parse_ansi_escapes\<close> is a
  generator; the model returns the list of everything it yields.  The loop
  state is \<open>(i, j, code, args)\<close> and \<open>scan\<close> is one pass of
  \<open>while True\<close> from that state up to the final \<open>yield\<close>.
\<close>

type_synonym segment = "char option \<times> csi_args option \<times> string"

function scan :: "string \<Rightarrow> nat \<Rightarrow> nat \<Rightarrow> char option \<Rightarrow> csi_args option \<Rightarrow> segment list" where
  "scan text i j0 code args =
     (case find_from ESC text j0 of
        None \<Rightarrow> [(code, args, drop i text)]
      | Some j \<Rightarrow>
          if j + 1 \<ge> length text then [(code, args, drop i text)]
          else
            let new_code = text ! (j + 1) in
            (case (if new_code = CHR ''['' then parse_csi text j else None) of
               None \<Rightarrow> scan text i (j + 2) code args
             | Some (new_args, k) \<Rightarrow>
                 (code, args, slice text i j) # scan text k k (Some new_code) (Some new_args)))"
  by pat_completeness auto

lemma index_of_bound: "index_of c xs = Some n \<Longrightarrow> n < length xs"
  by (induction xs arbitrary: n) (auto split: if_splits)

lemma find_from_bounds: "find_from c text j = Some p \<Longrightarrow> j \<le> p \<and> p < length text"
  by (auto simp: find_from_def dest!: index_of_bound)

lemma parse_csi_end: "parse_csi text pos = Some (a, k) \<Longrightarrow> pos + 2 < k"
  by (auto simp: parse_csi_def Let_def split: if_splits list.splits)

termination scan
proof (relation "measure (\<lambda>(text, i, j, code, args). length text - j)", goal_cases)
  case 1
  show ?case by simp
next
  case (2 s i j0 code args j new_code)
  then show ?case by (auto dest!: find_from_bounds)
next
  case (3 s i j0 code args j new_code x new_args k)
  then show ?case
    by (auto dest!: find_from_bounds parse_csi_end split: if_splits)
qed

declare scan.simps [simp del]

definition parse_ansi_escapes :: "string \<Rightarrow> segment list" where
  "parse_ansi_escapes text = scan text 0 0 None None"

text \<open>\<open>"".join(s for *_, s in parse_ansi_escapes(text))\<close>\<close>

definition strip_ansi_escapes :: "string \<Rightarrow> string" where
  "strip_ansi_escapes text = concat (map (\<lambda>(code, args, s). s) (parse_ansi_escapes text))"

section \<open>The SGR interpreter and run builder of \<open>alot/widgets/ansi.py\<close>\<close>

text \<open>
  The dictionary \<open>attr\<close> holds strings under \<open>fg\<close> and \<open>bg\<close> and booleans
  under the style names, so its values are a two-variant type and the
  dictionary is a map from key to value.
\<close>

datatype val = Str string | Bool bool

type_synonym attr = "string \<rightharpoonup> val"

text \<open>
  \<open>default_attr\<close> is the object the caller passes; the record holds the
  values of the four properties the code reads from it.  The object is a
  \<open>urwid.AttrSpec\<close>, whose \<open>foreground\<close> property is the colour followed
  by the names of the styles that are switched on, so for such an object
  \<open>bold\<close> is set exactly when \<open>,bold\<close> occurs in \<open>foreground\<close>, and
  likewise for \<open>underline\<close>.  The default argument \<open>default_attr=None\<close>
  fails at the first property access and is excluded by the type.
\<close>

record default_attr =
  foreground :: string
  background :: string
  bold :: bool
  underline :: bool

definition ECODES :: "(string \<times> (string \<times> val) list) list" where
  "ECODES =
     [(''1'', [(''bold'', Bool True)]),
      (''3'', [(''italics'', Bool True)]),
      (''4'', [(''underline'', Bool True)]),
      (''5'', [(''blink'', Bool True)]),
      (''7'', [(''standout'', Bool True)]),
      (''9'', [(''strikethrough'', Bool True)]),
      (''30'', [(''fg'', Str ''black'')]),
      (''31'', [(''fg'', Str ''dark red'')]),
      (''32'', [(''fg'', Str ''dark green'')]),
      (''33'', [(''fg'', Str ''brown'')]),
      (''34'', [(''fg'', Str ''dark blue'')]),
      (''35'', [(''fg'', Str ''dark magenta'')]),
      (''36'', [(''fg'', Str ''dark cyan'')]),
      (''37'', [(''fg'', Str ''light gray'')]),
      (''40'', [(''bg'', Str ''black'')]),
      (''41'', [(''bg'', Str ''dark red'')]),
      (''42'', [(''bg'', Str ''dark green'')]),
      (''43'', [(''bg'', Str ''brown'')]),
      (''44'', [(''bg'', Str ''dark blue'')]),
      (''45'', [(''bg'', Str ''dark magenta'')]),
      (''46'', [(''bg'', Str ''dark cyan'')]),
      (''47'', [(''bg'', Str ''light gray'')])]"

definition URWID_MODS :: "string list" where
  "URWID_MODS = [''bold'', ''underline'', ''standout'', ''blink'', ''italics'', ''strikethrough'']"

text \<open>\<open>attr.update(kvs)\<close>: every pair is stored, in order.\<close>

definition attr_update :: "attr \<Rightarrow> (string \<times> val) list \<Rightarrow> attr" where
  "attr_update a kvs = foldl (\<lambda>m (k, v). m(k \<mapsto> v)) a kvs"

text \<open>The dictionary built at the start of \<open>parse_escapes_to_urwid\<close>.\<close>

definition initial_attr :: "default_attr \<Rightarrow> attr" where
  "initial_attr d =
     attr_update Map.empty
       [(''fg'', Str (foreground d)), (''bg'', Str (background d)),
        (''bold'', Bool (bold d)), (''underline'', Bool (underline d)),
        (''standout'', Bool (underline d))]"

text \<open>\<open>reset_attr\<close>: \<open>attr.clear()\<close>, then the same five keys are stored.\<close>

definition attr_clear :: "attr \<Rightarrow> attr" where
  "attr_clear a = Map.empty"

definition reset_attr :: "default_attr \<Rightarrow> attr \<Rightarrow> attr" where
  "reset_attr d a =
     attr_update (attr_clear a)
       [(''fg'', Str (foreground d)), (''bg'', Str (background d)),
        (''bold'', Bool (bold d)), (''underline'', Bool (underline d)),
        (''standout'', Bool (underline d))]"

text \<open>\<open>pb.split(";")\<close>: the fields between semicolons, at least one.\<close>

fun split_on :: "char \<Rightarrow> string \<Rightarrow> string list" where
  "split_on c [] = [[]]"
| "split_on c (x # xs) =
     (if x = c then [] # split_on c xs
      else (case split_on c xs of
              [] \<Rightarrow> [[x]]
            | w # ws \<Rightarrow> (x # w) # ws))"

text \<open>
  \<open>int(s)\<close> on a field of the parameter bytes.  Such a field holds only the
  characters \<open>0-9:<=>?\<close>, so no sign, blank or underscore can occur, and
  \<open>int\<close> returns a number exactly when the field is a non-empty run of
  decimal digits that is not longer than the interpreter's limit on the
  length of a numeral, \<open>sys.get_int_max_str_digits()\<close>, which is 4300
  unless configured otherwise; leading zeros count.  In every other case
  it raises \<open>ValueError\<close>, here \<open>None\<close>.  The result is never negative.
\<close>

definition max_str_digits :: nat where
  "max_str_digits = 4300"

definition digit_val :: "char \<Rightarrow> nat" where
  "digit_val c = of_char c - of_char CHR ''0''"

definition py_int :: "string \<Rightarrow> nat option" where
  "py_int s =
     (if s \<noteq> [] \<and> list_all (\<lambda>c. c \<in> set ''0123456789'') s \<and> length s \<le> max_str_digits
      then Some (foldl (\<lambda>n c. 10 * n + digit_val c) 0 s)
      else None)"

text \<open>
  The format \<open>{n:02x}\<close> of a number \<open>n \<ge> 0\<close>: lowercase hexadecimal, padded
  with zeros on the left to at least two characters.
\<close>

definition hex_digit :: "nat \<Rightarrow> char" where
  "hex_digit n = ''0123456789abcdef'' ! (n mod 16)"

fun hex_str :: "nat \<Rightarrow> string" where
  "hex_str n = (if n < 16 then [hex_digit n] else hex_str (n div 16) @ [hex_digit n])"

declare hex_str.simps [simp del]

definition fmt_02x :: "nat \<Rightarrow> string" where
  "fmt_02x n = replicate (2 - length (hex_str n)) CHR ''0'' @ hex_str n"

text \<open>
  The tail of the colour branch of \<open>update_attr\<close> (lines 176 to 185): the
  key is chosen from the parameter and the dictionary is updated only when
  both the key and the value are non-empty.
\<close>

definition store_color :: "string \<Rightarrow> string \<Rightarrow> attr \<Rightarrow> attr" where
  "store_color param attr_value a =
     (let attr_name = (if param = ''38'' then ''fg'' else if param = ''48'' then ''bg'' else '''')
      in if attr_name \<noteq> '''' \<and> attr_value \<noteq> ''''
         then attr_update a [(attr_name, Str attr_value)]
         else a)"

text \<open>
  The \<open>while True\<close> loop of \<open>update_attr\<close> over what is left of
  \<open>param_iter\<close>.  Every \<open>next(param_iter)\<close> takes the head of the list;
  \<open>StopIteration\<close> is the empty list, and each \<open>break\<close> returns the
  dictionary as it is.
\<close>

fun update_attr_loop :: "default_attr \<Rightarrow> string list \<Rightarrow> attr \<Rightarrow> attr" where
  "update_attr_loop d [] a = a"
| "update_attr_loop d (param # ps) a =
     (if param = '''' \<or> param = ''0'' then update_attr_loop d ps (reset_attr d a)
      else (case map_of ECODES param of
              Some kvs \<Rightarrow> update_attr_loop d ps (attr_update a kvs)
            | None \<Rightarrow>
                if param \<in> set [''38'', ''48'', ''58''] then
                  (case ps of
                     [] \<Rightarrow> a
                   | color_type # ps1 \<Rightarrow>
                       if color_type = ''5'' then
                         (case ps1 of
                            [] \<Rightarrow> a
                          | color_index # ps2 \<Rightarrow>
                              update_attr_loop d ps2 (store_color param (''h'' @ color_index) a))
                       else if color_type = ''2'' then
                         (case ps1 of
                            r # g # b # ps2 \<Rightarrow>
                              (case (py_int r, py_int g, py_int b) of
                                 (Some r', Some g', Some b') \<Rightarrow>
                                   update_attr_loop d ps2
                                     (store_color param
                                        (''#'' @ fmt_02x r' @ fmt_02x g' @ fmt_02x b') a)
                               | _ \<Rightarrow> update_attr_loop d ps2 (store_color param '''' a))
                          | _ \<Rightarrow> a)
                       else update_attr_loop d ps1 (store_color param '''' a))
                else update_attr_loop d ps a))"

definition update_attr :: "default_attr \<Rightarrow> string \<Rightarrow> string \<Rightarrow> string \<Rightarrow> attr \<Rightarrow> attr" where
  "update_attr d pb ib fb a =
     (if fb = ''m''
      then update_attr_loop d (map (\<lambda>v. if v = '''' then ''0'' else v) (split_on CHR '';'' pb)) a
      else a)"

text \<open>
  \<open>urwid.AttrSpec\<close> belongs to the urwid library, not to this repository.
  It checks the two strings it is given and raises \<open>AttrSpecError\<close> when it
  rejects them (a style name given twice, a colour it does not know);
  otherwise it returns the attribute.  The model takes the constructor as
  the parameter \<open>attr_spec\<close>, which returns the error or the attribute, so
  nothing is assumed about which strings urwid accepts.  Attributes are
  compared as values: two attributes that are equal are the same key of
  \<open>urwid_focus\<close>.
\<close>

datatype error = KeyError string | TypeError | AttrSpecError

text \<open>The truth value of a dictionary entry, as \<open>attr[mod]\<close> is tested.\<close>

fun truthy :: "val \<Rightarrow> bool" where
  "truthy (Bool b) = b"
| "truthy (Str s) = (s \<noteq> [])"

text \<open>\<open>attr[key]\<close> where a string is expected.\<close>

definition get_str :: "attr \<Rightarrow> string \<Rightarrow> error + string" where
  "get_str a key =
     (case a key of
        None \<Rightarrow> Inl (KeyError key)
      | Some (Str s) \<Rightarrow> Inr s
      | Some (Bool b) \<Rightarrow> Inl TypeError)"

text \<open>The \<open>for mod in URWID_MODS\<close> loop that composes the foreground.\<close>

definition add_mods :: "attr \<Rightarrow> string \<Rightarrow> string" where
  "add_mods a fg =
     foldl (\<lambda>urwid_fg mod_name.
              if (case a mod_name of None \<Rightarrow> False | Some v \<Rightarrow> truthy v)
              then urwid_fg @ '','' @ mod_name else urwid_fg)
           fg URWID_MODS"

text \<open>
  \<open>append_themed_infix\<close> reads \<open>attr\<close> and appends to \<open>urwid_text\<close> and
  \<open>urwid_focus\<close>, which are passed in and returned.  An exception of the
  constructor leaves the function, as every exception does.
\<close>

definition append_themed_infix ::
  "(string \<Rightarrow> string \<Rightarrow> error + 's) \<Rightarrow> default_attr \<Rightarrow> 'f \<Rightarrow> bool \<Rightarrow> attr \<Rightarrow> string \<Rightarrow>
   ('s \<times> string) list \<times> ('s option \<rightharpoonup> 'f) \<Rightarrow>
   error + ('s \<times> string) list \<times> ('s option \<rightharpoonup> 'f)" where
  "append_themed_infix attr_spec d default_attr_focus parse_background a infix st =
     (case st of (urwid_text, urwid_focus) \<Rightarrow>
        if infix = [] then Inr (urwid_text, urwid_focus)
        else
          (case get_str a ''fg'' of
             Inl e \<Rightarrow> Inl e
           | Inr fg \<Rightarrow>
               let urwid_fg = add_mods a fg in
               (case (if parse_background then get_str a ''bg'' else Inr (background d)) of
                  Inl e \<Rightarrow> Inl e
                | Inr urwid_bg \<Rightarrow>
                    (case attr_spec urwid_fg urwid_bg of
                       Inl e \<Rightarrow> Inl e
                     | Inr urwid_attr \<Rightarrow>
                         Inr (urwid_text @ [(urwid_attr, infix)],
                              urwid_focus(Some urwid_attr \<mapsto> default_attr_focus))))))"

text \<open>
  The \<open>for code, args, infix in ansi.parse_ansi_escapes(text)\<close> loop.  The
  state is \<open>(attr, urwid_text, urwid_focus)\<close>; an exception ends the loop.
\<close>

fun process_segments ::
  "(string \<Rightarrow> string \<Rightarrow> error + 's) \<Rightarrow> default_attr \<Rightarrow> 'f \<Rightarrow> bool \<Rightarrow> segment list \<Rightarrow>
   attr \<times> ('s \<times> string) list \<times> ('s option \<rightharpoonup> 'f) \<Rightarrow>
   error + attr \<times> ('s \<times> string) list \<times> ('s option \<rightharpoonup> 'f)" where
  "process_segments attr_spec d daf pbg [] st = Inr st"
| "process_segments attr_spec d daf pbg ((code, args, infix) # segs) (a, out) =
     (case (if code = Some CHR ''[''
            then (case args of
                    None \<Rightarrow> Inl TypeError
                  | Some (pb, ib, fb) \<Rightarrow> Inr (update_attr d pb ib fb a))
            else Inr a) of
        Inl e \<Rightarrow> Inl e
      | Inr a' \<Rightarrow>
          (case append_themed_infix attr_spec d daf pbg a' infix out of
             Inl e \<Rightarrow> Inl e
           | Inr out' \<Rightarrow> process_segments attr_spec d daf pbg segs (a', out')))"

definition parse_escapes_to_urwid ::
  "(string \<Rightarrow> string \<Rightarrow> error + 's) \<Rightarrow> string \<Rightarrow> default_attr \<Rightarrow> 'f \<Rightarrow> bool \<Rightarrow>
   error + ('s \<times> string) list \<times> ('s option \<rightharpoonup> 'f)" where
  "parse_escapes_to_urwid attr_spec text d default_attr_focus parse_background =
     (case process_segments attr_spec d default_attr_focus parse_background
             (parse_ansi_escapes text)
             (initial_attr d, [], [None \<mapsto> default_attr_focus]) of
        Inl e \<Rightarrow> Inl e
      | Inr (a, urwid_text, urwid_focus) \<Rightarrow> Inr (urwid_text, urwid_focus))"

section \<open>Notions used to state the properties\<close>

text \<open>
  The style suffix that \<open>append_themed_infix\<close> composes while \<open>attr\<close> is the
  dictionary built from \<open>default_attr\<close>: \<open>bold\<close> and \<open>underline\<close> come from
  the flags of the same name, \<open>standout\<close> comes from the underline flag.
\<close>

definition default_mods :: "default_attr \<Rightarrow> string" where
  "default_mods d =
     (if bold d then '',bold'' else '''') @
     (if underline d then '',underline'' else '''') @
     (if underline d then '',standout'' else '''')"

text \<open>
  The state of \<open>urwid_focus\<close> that the run builder keeps: the key \<open>None\<close> and
  the attribute of every run are its keys, and every key has the same
  value.
\<close>

definition focus_inv :: "'f \<Rightarrow> ('s \<times> string) list \<Rightarrow> ('s option \<rightharpoonup> 'f) \<Rightarrow> bool" where
  "focus_inv f urwid_text urwid_focus =
     (dom urwid_focus = insert None (Some ` fst ` set urwid_text) \<and>
      (\<forall>k v. urwid_focus k = Some v \<longrightarrow> v = f))"

text \<open>
  The simplest constructor: it accepts every pair of strings and the
  attribute is the pair.  It stands for \<open>urwid.AttrSpec\<close> in closed examples
  whose strings urwid accepts.
\<close>

definition pair_spec :: "string \<Rightarrow> string \<Rightarrow> error + string \<times> string" where
  "pair_spec fg bg = Inr (fg, bg)"

section \<open>The tokenizer and the stripper\<close>

lemma index_of_None: "c \<notin> set xs \<Longrightarrow> index_of c xs = None"
  by (induction xs) auto

lemma find_from_None: "c \<notin> set (drop j text) \<Longrightarrow> find_from c text j = None"
  by (simp add: find_from_def index_of_None)

lemma scan_no_esc:
  "ESC \<notin> set (drop j text) \<Longrightarrow> scan text i j code args = [(code, args, drop i text)]"
  by (subst scan.simps) (simp add: find_from_None)

lemma parse_ansi_no_esc: "ESC \<notin> set s \<Longrightarrow> parse_ansi_escapes s = [(None, None, s)]"
  by (simp add: parse_ansi_escapes_def scan_no_esc)

lemma strip_no_esc: "ESC \<notin> set s \<Longrightarrow> strip_ansi_escapes s = s"
  by (simp add: strip_ansi_escapes_def parse_ansi_no_esc)

lemma slice_append: "i \<le> j \<Longrightarrow> j \<le> k \<Longrightarrow> slice t i k = slice t i j @ slice t j k"
proof -
  assume a: "i \<le> j" "j \<le> k"
  then have "k - i = (j - i) + (k - j)" by simp
  then have "take (k - i) (drop i t) =
             take (j - i) (drop i t) @ take (k - j) (drop (j - i) (drop i t))"
    by (simp only: take_add)
  with a show ?thesis by (simp add: slice_def)
qed

lemma slice_drop: "i \<le> j \<Longrightarrow> drop i t = slice t i j @ drop j t"
proof -
  assume a: "i \<le> j"
  have "drop i t = take (j - i) (drop i t) @ drop (j - i) (drop i t)"
    by (simp only: append_take_drop_id)
  moreover from a have "drop (j - i) (drop i t) = drop j t" by simp
  ultimately show ?thesis by (simp only: slice_def)
qed

lemma scan_unrecognized_step:
  assumes "find_from ESC text j0 = Some j" "j + 1 < length text"
    "text ! (j + 1) \<noteq> CHR ''['' \<or> parse_csi text j = None"
  shows "scan text i j0 code args = scan text i (j + 2) code args"
  using assms by (subst scan.simps) (auto simp: Let_def)

text \<open>
  Whatever lies between the segment start \<open>i\<close> and the cursor is part of the
  next segment that is yielded.
\<close>

lemma scan_first_segment:
  "i \<le> j0 \<Longrightarrow>
   \<exists>rest segs. scan t i j0 code args = (code, args, slice t i j0 @ rest) # segs"
proof (induction t i j0 code args rule: scan.induct)
  case (1 t i j0 code args)
  show ?case
  proof (cases "find_from ESC t j0")
    case None
    then have "scan t i j0 code args = [(code, args, drop i t)]"
      by (subst scan.simps) simp
    with slice_drop[OF "1.prems"] show ?thesis by metis
  next
    case (Some j)
    note fj = Some
    then have jb: "j0 \<le> j" by (auto dest: find_from_bounds)
    show ?thesis
    proof (cases "j + 1 \<ge> length t")
      case True
      with Some have "scan t i j0 code args = [(code, args, drop i t)]"
        by (subst scan.simps) simp
      with slice_drop[OF "1.prems"] show ?thesis by metis
    next
      case False
      show ?thesis
      proof (cases "if t ! (j + 1) = CHR ''['' then parse_csi t j else None")
        case None
        with fj False have eq: "scan t i j0 code args = scan t i (j + 2) code args"
          by (subst scan.simps) (simp add: Let_def)
        from "1.prems" jb have "i \<le> j + 2" by simp
        from "1.IH"(1)[OF fj False refl None this]
        obtain rest segs where
          "scan t i (j + 2) code args = (code, args, slice t i (j + 2) @ rest) # segs"
          by blast
        moreover have "slice t i (j + 2) = slice t i j0 @ slice t j0 (j + 2)"
          using "1.prems" jb by (intro slice_append) auto
        ultimately show ?thesis using eq by simp
      next
        case (Some r)
        obtain new_args k where r: "r = (new_args, k)" by (cases r)
        with fj Some False have "scan t i j0 code args =
            (code, args, slice t i j) # scan t k k (Some (t ! (j + 1))) (Some new_args)"
          by (subst scan.simps) (simp add: Let_def)
        moreover have "slice t i j = slice t i j0 @ slice t j0 j"
          using "1.prems" jb by (intro slice_append) auto
        ultimately show ?thesis by simp
      qed
    qed
  qed
qed

text \<open>
  How the loop treats an escape it does not recognize (the character after
  ESC is not \<open>[\<close>, or the CSI pattern does not match): the cursor moves two
  characters on and the loop goes round again, nothing is yielded and the
  segment start stays where it was, so the two characters are part of the
  text of the next segment that is yielded.
\<close>

lemma scan_keeps_unrecognized:
  assumes "find_from ESC text j0 = Some j" and "j + 1 < length text"
    and "text ! (j + 1) \<noteq> CHR ''['' \<or> parse_csi text j = None"
    and "i \<le> j0"
  shows "scan text i j0 code args = scan text i (j + 2) code args \<and>
         (\<exists>rest segs. scan text i j0 code args =
                         (code, args, slice text i (j + 2) @ rest) # segs)"
proof -
  have eq: "scan text i j0 code args = scan text i (j + 2) code args"
    using assms(1-3) by (rule scan_unrecognized_step)
  from assms(1) have "j0 \<le> j" by (auto dest: find_from_bounds)
  with assms(4) have "i \<le> j + 2" by simp
  from scan_first_segment[OF this] eq show ?thesis by simp
qed

text \<open>
  Claim C1: stripping is idempotent.  The code breaks the claim.  In
  \<open>ESC [ ESC [ m m\<close> the first \<open>ESC [\<close> is no CSI sequence and is left in
  the text, the sequence \<open>ESC [ m\<close> after it is removed, and what remains
  is \<open>ESC [ m\<close>: the stripper returns a text that holds a CSI sequence,
  and stripping that text again returns the empty text.
\<close>

theorem strip_returns_csi_sequence:
  "strip_ansi_escapes [ESC, CHR ''['', ESC, CHR ''['', CHR ''m'', CHR ''m''] =
     [ESC, CHR ''['', CHR ''m''] \<and>
   strip_ansi_escapes (strip_ansi_escapes [ESC, CHR ''['', ESC, CHR ''['', CHR ''m'', CHR ''m'']) = [] \<and>
   strip_ansi_escapes (strip_ansi_escapes [ESC, CHR ''['', ESC, CHR ''['', CHR ''m'', CHR ''m'']) \<noteq>
     strip_ansi_escapes [ESC, CHR ''['', ESC, CHR ''['', CHR ''m'', CHR ''m'']"
  by code_simp

text \<open>
  Claim C2: an escape that is not recognized is dropped from the stream.
  The code breaks the claim.  For \<open>ESC ] x\<close> and for \<open>ESC c x\<close> the only
  segment yielded is the whole input: the cursor has moved past the two
  characters, but they are segment text and the stripper returns them.
\<close>

theorem unrecognized_escape_emitted:
  "parse_ansi_escapes [ESC, CHR '']'', CHR ''x''] = [(None, None, [ESC, CHR '']'', CHR ''x''])] \<and>
   strip_ansi_escapes [ESC, CHR '']'', CHR ''x''] = [ESC, CHR '']'', CHR ''x''] \<and>
   parse_ansi_escapes [ESC, CHR ''c'', CHR ''x''] = [(None, None, [ESC, CHR ''c'', CHR ''x''])] \<and>
   strip_ansi_escapes [ESC, CHR ''c'', CHR ''x''] = [ESC, CHR ''c'', CHR ''x'']"
  by code_simp

section \<open>Reset, seeding and plain text\<close>

lemma attr_update_Nil: "attr_update a [] = a"
  by (simp add: attr_update_def)

lemma attr_update_Cons: "attr_update a ((k, v) # kvs) = attr_update (a(k \<mapsto> v)) kvs"
  by (simp add: attr_update_def)

lemma initial_attr_eq:
  "initial_attr d =
     [''fg'' \<mapsto> Str (foreground d), ''bg'' \<mapsto> Str (background d),
      ''bold'' \<mapsto> Bool (bold d), ''underline'' \<mapsto> Bool (underline d),
      ''standout'' \<mapsto> Bool (underline d)]"
  by (simp add: initial_attr_def attr_update_Nil attr_update_Cons)

lemma reset_attr_eq: "reset_attr d a = initial_attr d"
  by (simp add: reset_attr_def initial_attr_def attr_clear_def)

lemma add_mods_initial:
  "add_mods (initial_attr d) x = x @ default_mods d"
  "add_mods ((initial_attr d)(''fg'' \<mapsto> Str c)) x = x @ default_mods d"
  "add_mods ((initial_attr d)(''bg'' \<mapsto> Str c)) x = x @ default_mods d"
  by (simp_all add: add_mods_def URWID_MODS_def initial_attr_eq default_mods_def)

lemma get_str_initial:
  "get_str (initial_attr d) ''fg'' = Inr (foreground d)"
  "get_str (initial_attr d) ''bg'' = Inr (background d)"
  "get_str ((initial_attr d)(''fg'' \<mapsto> Str c)) ''fg'' = Inr c"
  "get_str ((initial_attr d)(''fg'' \<mapsto> Str c)) ''bg'' = Inr (background d)"
  "get_str ((initial_attr d)(''bg'' \<mapsto> Str c)) ''fg'' = Inr (foreground d)"
  "get_str ((initial_attr d)(''bg'' \<mapsto> Str c)) ''bg'' = Inr c"
  by (simp_all add: get_str_def initial_attr_eq)

text \<open>
  What \<open>append_themed_infix\<close> does with a non-empty infix once the two
  strings are composed: it calls the constructor on them and appends the
  run if the constructor returns.
\<close>

lemma append_call:
  assumes "infix \<noteq> []" and "get_str a ''fg'' = Inr fg"
    and "(if pbg then get_str a ''bg'' else Inr (background d)) = Inr bg"
  shows "append_themed_infix mk d f pbg a infix (ut, uf) =
     map_sum id (\<lambda>sp. (ut @ [(sp, infix)], uf(Some sp \<mapsto> f))) (mk (add_mods a fg) bg)"
  using assms
  by (cases "mk (add_mods a fg) bg") (simp_all add: append_themed_infix_def Let_def)

lemma append_initial:
  "infix \<noteq> [] \<Longrightarrow>
   append_themed_infix mk d f pbg (initial_attr d) infix (ut, uf) =
     map_sum id (\<lambda>sp. (ut @ [(sp, infix)], uf(Some sp \<mapsto> f)))
       (mk (foreground d @ default_mods d) (background d))"
  using append_call[of "infix" "initial_attr d" "foreground d" pbg d "background d" mk f ut uf]
  by (simp add: get_str_initial add_mods_initial)

lemma append_fg:
  "infix \<noteq> [] \<Longrightarrow>
   append_themed_infix mk d f pbg ((initial_attr d)(''fg'' \<mapsto> Str c)) infix (ut, uf) =
     map_sum id (\<lambda>sp. (ut @ [(sp, infix)], uf(Some sp \<mapsto> f)))
       (mk (c @ default_mods d) (background d))"
  using append_call[of "infix" "(initial_attr d)(''fg'' \<mapsto> Str c)" c pbg d "background d"
      mk f ut uf]
  by (simp add: get_str_initial add_mods_initial)

lemma append_bg:
  "infix \<noteq> [] \<Longrightarrow>
   append_themed_infix mk d f True ((initial_attr d)(''bg'' \<mapsto> Str c)) infix (ut, uf) =
     map_sum id (\<lambda>sp. (ut @ [(sp, infix)], uf(Some sp \<mapsto> f)))
       (mk (foreground d @ default_mods d) c)"
  using append_call[of "infix" "(initial_attr d)(''bg'' \<mapsto> Str c)" "foreground d" True d c
      mk f ut uf]
  by (simp add: get_str_initial add_mods_initial)

lemma append_empty: "append_themed_infix mk d f pbg a [] st = Inr st"
  by (cases st) (simp add: append_themed_infix_def)

lemma parse_plain:
  "ESC \<notin> set s \<Longrightarrow> s \<noteq> [] \<Longrightarrow>
   parse_escapes_to_urwid mk s d f pbg =
     map_sum id (\<lambda>sp. ([(sp, s)], [None \<mapsto> f, Some sp \<mapsto> f]))
       (mk (foreground d @ default_mods d) (background d))"
  by (cases "mk (foreground d @ default_mods d) (background d)")
     (simp_all add: parse_escapes_to_urwid_def parse_ansi_no_esc append_initial)

lemma parse_empty: "parse_escapes_to_urwid mk [] d f pbg = Inr ([], [None \<mapsto> f])"
  by (simp add: parse_escapes_to_urwid_def parse_ansi_no_esc append_empty)

text \<open>
  The parse of one SGR escape followed by a text, when the escape leaves
  the initial dictionary as it is or replaces one colour in it.
\<close>

lemma parse_one_same:
  assumes "parse_ansi_escapes t = [(None, None, []), (Some CHR ''['', Some (pb, ib, ''m''), T)]"
    and "T \<noteq> []"
    and "update_attr d pb ib ''m'' (initial_attr d) = initial_attr d"
  shows "parse_escapes_to_urwid mk t d f pbg =
     map_sum id (\<lambda>sp. ([(sp, T)], [None \<mapsto> f, Some sp \<mapsto> f]))
       (mk (foreground d @ default_mods d) (background d))"
  using assms(2)
  by (cases "mk (foreground d @ default_mods d) (background d)")
     (simp_all add: parse_escapes_to_urwid_def assms(1) assms(3) append_empty append_initial)

lemma parse_one_fg:
  assumes "parse_ansi_escapes t = [(None, None, []), (Some CHR ''['', Some (pb, ib, ''m''), T)]"
    and "T \<noteq> []"
    and "update_attr d pb ib ''m'' (initial_attr d) = (initial_attr d)(''fg'' \<mapsto> Str c)"
  shows "parse_escapes_to_urwid mk t d f pbg =
     map_sum id (\<lambda>sp. ([(sp, T)], [None \<mapsto> f, Some sp \<mapsto> f]))
       (mk (c @ default_mods d) (background d))"
  using assms(2)
  by (cases "mk (c @ default_mods d) (background d)")
     (simp_all add: parse_escapes_to_urwid_def assms(1) assms(3) append_empty append_fg)

lemma parse_one_bg:
  assumes "parse_ansi_escapes t = [(None, None, []), (Some CHR ''['', Some (pb, ib, ''m''), T)]"
    and "T \<noteq> []"
    and "update_attr d pb ib ''m'' (initial_attr d) = (initial_attr d)(''bg'' \<mapsto> Str c)"
  shows "parse_escapes_to_urwid mk t d f True =
     map_sum id (\<lambda>sp. ([(sp, T)], [None \<mapsto> f, Some sp \<mapsto> f]))
       (mk (foreground d @ default_mods d) c)"
  using assms(2)
  by (cases "mk (foreground d @ default_mods d) c")
     (simp_all add: parse_escapes_to_urwid_def assms(1) assms(3) append_empty append_bg)

lemma parse_csi_reset:
  "parse_csi (ESC # CHR ''['' # CHR ''0'' # CHR ''m'' # T) 0 = Some ((''0'', [], ''m''), 4)"
  by (simp add: parse_csi_def ESC_def param_bytes_def intermediate_bytes_def final_bytes_def)

lemma parse_ansi_reset:
  assumes "ESC \<notin> set T"
  shows "parse_ansi_escapes (ESC # CHR ''['' # CHR ''0'' # CHR ''m'' # T) =
     [(None, None, []), (Some CHR ''['', Some (''0'', [], ''m''), T)]"
proof -
  let ?t = "ESC # CHR ''['' # CHR ''0'' # CHR ''m'' # T"
  have f: "find_from ESC ?t 0 = Some 0" by (simp add: find_from_def)
  have "scan ?t 0 0 None None =
     (None, None, slice ?t 0 0) # scan ?t 4 4 (Some CHR ''['') (Some (''0'', [], ''m''))"
    by (subst scan.simps) (simp add: f parse_csi_reset Let_def)
  moreover have "scan ?t 4 4 (Some CHR ''['') (Some (''0'', [], ''m'')) =
      [(Some CHR ''['', Some (''0'', [], ''m''), drop 4 ?t)]"
    using assms by (intro scan_no_esc) simp
  ultimately show ?thesis by (simp add: parse_ansi_escapes_def slice_def)
qed

lemma update_attr_reset:
  "update_attr d ''0'' ib ''m'' a = reset_attr d a"
  "update_attr d '''' ib ''m'' a = reset_attr d a"
  by (simp_all add: update_attr_def)

lemma parse_reset:
  assumes "ESC \<notin> set T" and "T \<noteq> []"
  shows "parse_escapes_to_urwid mk (ESC # CHR ''['' # CHR ''0'' # CHR ''m'' # T) d f pbg =
     map_sum id (\<lambda>sp. ([(sp, T)], [None \<mapsto> f, Some sp \<mapsto> f]))
       (mk (foreground d @ default_mods d) (background d))"
  by (rule parse_one_same[OF parse_ansi_reset[OF assms(1)] assms(2)])
     (simp add: update_attr_reset reset_attr_eq)

text \<open>
  Claim C4: after \<open>ESC [ 0 m\<close> the run that carries the text has the
  attribute of \<open>default_attr\<close> exactly.  The code breaks the claim.  For the
  default \<open>urwid.AttrSpec('dark red,bold', 'black')\<close>, whose foreground
  property is \<open>dark red,bold\<close> and whose bold flag is set, the code adds the
  style names to a foreground that already lists them: the only attribute
  it asks the constructor for has the foreground \<open>dark red,bold,bold\<close>, so
  the parse returns the run with that attribute if the constructor accepts
  a style named twice, and its error if it does not.
\<close>

theorem reset_run_repeats_style:
  "parse_escapes_to_urwid mk (ESC # ''[0mT'')
       \<lparr>foreground = ''dark red,bold'', background = ''black'', bold = True,
        underline = False\<rparr> f pbg =
     map_sum id (\<lambda>sp. ([(sp, ''T'')], [None \<mapsto> f, Some sp \<mapsto> f]))
       (mk ''dark red,bold,bold'' ''black'')"
proof -
  have h: "ESC \<notin> set ''T''" by (simp add: ESC_def)
  have n: "''T'' \<noteq> []" by simp
  from parse_reset[OF h n, of mk "\<lparr>foreground = ''dark red,bold'', background = ''black'',
      bold = True, underline = False\<rparr>" f pbg]
  show ?thesis by (simp add: default_mods_def)
qed

text \<open>
  Claim C5.  A parameter \<open>0\<close> or an empty parameter replaces the attribute
  state, whatever it was, by exactly five entries: \<open>fg\<close>, \<open>bg\<close>, \<open>bold\<close> and
  \<open>underline\<close> from \<open>default_attr\<close>, and \<open>standout\<close> from the underline flag
  of \<open>default_attr\<close>; the loop then goes on with the next parameter.  The
  state a parse call starts from is the same dictionary.
\<close>

theorem reset_restores_default:
  "update_attr_loop d (''0'' # ps) a = update_attr_loop d ps (reset_attr d a) \<and>
   update_attr_loop d ('''' # ps) a = update_attr_loop d ps (reset_attr d a) \<and>
   update_attr d ''0'' ib ''m'' a = reset_attr d a \<and>
   update_attr d '''' ib ''m'' a = reset_attr d a \<and>
   reset_attr d a =
     [''fg'' \<mapsto> Str (foreground d), ''bg'' \<mapsto> Str (background d),
      ''bold'' \<mapsto> Bool (bold d), ''underline'' \<mapsto> Bool (underline d),
      ''standout'' \<mapsto> Bool (underline d)] \<and>
   initial_attr d = reset_attr d a \<and>
   parse_escapes_to_urwid mk text d f pbg =
     (case process_segments mk d f pbg (parse_ansi_escapes text)
             (reset_attr d a, [], [None \<mapsto> f]) of
        Inl e \<Rightarrow> Inl e
      | Inr (a', urwid_text, urwid_focus) \<Rightarrow> Inr (urwid_text, urwid_focus))"
  by (simp add: update_attr_reset reset_attr_eq initial_attr_eq[symmetric]
      parse_escapes_to_urwid_def)

text \<open>
  Claim C6, as amended.  For every text \<open>s\<close> without an ESC character the
  stripper returns \<open>s\<close>.  If \<open>s\<close> is empty the run builder yields no run,
  since an empty infix is never appended.  If \<open>s\<close> is not empty the run
  builder calls the constructor once, on the foreground of \<open>default_attr\<close>
  followed by the style names its flags switch on and on the background of
  \<open>default_attr\<close>; if the constructor returns an attribute the result is
  exactly one run, with the text \<open>s\<close> and that attribute.  (The equation
  also covers the other case: an error of the constructor is the result of
  the parse.)
\<close>

theorem plain_text_round_trip:
  assumes "ESC \<notin> set s"
  shows "strip_ansi_escapes s = s \<and>
         parse_escapes_to_urwid mk s d f pbg =
           (if s = [] then Inr ([], [None \<mapsto> f])
            else map_sum id (\<lambda>sp. ([(sp, s)], [None \<mapsto> f, Some sp \<mapsto> f]))
                   (mk (foreground d @ default_mods d) (background d)))"
  using assms by (simp add: strip_no_esc parse_plain parse_empty)

theorem plain_text_round_trip_witness:
  "ESC \<notin> set ''plain'' \<and> strip_ansi_escapes ''plain'' = ''plain'' \<and>
   map_sum id fst (parse_escapes_to_urwid pair_spec ''plain''
       \<lparr>foreground = ''light gray'', background = ''black'', bold = False,
        underline = False\<rparr> ''focus'' False) =
     Inr [((''light gray'', ''black''), ''plain'')]"
proof -
  have h: "ESC \<notin> set ''plain''" by (simp add: ESC_def)
  from plain_text_round_trip[OF h, of pair_spec "\<lparr>foreground = ''light gray'',
      background = ''black'', bold = False, underline = False\<rparr>" "''focus''" False] h
  show ?thesis by (simp add: default_mods_def pair_spec_def)
qed

text \<open>
  Claim C6 as stated fails for the empty text, which holds no ESC: the run
  builder yields no run at all, and the constructor is not called.
\<close>

theorem plain_text_round_trip_counterexample:
  "map_sum id fst (parse_escapes_to_urwid pair_spec ''''
       \<lparr>foreground = ''default'', background = ''default'', bold = False,
        underline = False\<rparr> ''focus'' True) = Inr []"
  by (simp add: parse_empty)

section \<open>Extended colour parameters\<close>

lemma split_on_none: "c \<notin> set xs \<Longrightarrow> split_on c xs = [xs]"
  by (induction xs) auto


lemma ecodes_colour_params:
  "map_of ECODES ''38'' = None" "map_of ECODES ''48'' = None" "map_of ECODES ''58'' = None"
  by (simp_all add: ECODES_def)

lemma loop_indexed:
  "update_attr_loop d (''38'' # ''5'' # t # rest) a =
     update_attr_loop d rest (a(''fg'' \<mapsto> Str (''h'' @ t)))"
  "update_attr_loop d (''48'' # ''5'' # t # rest) a =
     update_attr_loop d rest (a(''bg'' \<mapsto> Str (''h'' @ t)))"
  by (simp_all add: ecodes_colour_params store_color_def attr_update_Cons attr_update_Nil)

lemma colour_param_facts:
  assumes "p \<in> {''38'', ''48'', ''58''}"
  shows "map_of ECODES p = None" "p \<noteq> ''''" "p \<noteq> ''0''"
  using assms by (auto simp: ecodes_colour_params)

lemma store_color_empty: "store_color p '''' a = a"
  by (simp add: store_color_def Let_def)

lemma short_list: "length xs < 3 \<Longrightarrow> xs = [] \<or> (\<exists>x. xs = [x]) \<or> (\<exists>x y. xs = [x, y])"
  by (cases xs; simp; rename_tac x ys; case_tac ys; simp; rename_tac y zs; case_tac zs; simp)

text \<open>The loop at one of the parameters 38, 48 and 58: the colour branch.\<close>

lemma loop_colour_unfold:
  assumes "p \<in> {''38'', ''48'', ''58''}"
  shows "update_attr_loop d (p # ps) a =
     (case ps of
        [] \<Rightarrow> a
      | color_type # ps1 \<Rightarrow>
          if color_type = ''5'' then
            (case ps1 of
               [] \<Rightarrow> a
             | color_index # ps2 \<Rightarrow>
                 update_attr_loop d ps2 (store_color p (''h'' @ color_index) a))
          else if color_type = ''2'' then
            (case ps1 of
               r # g # b # ps2 \<Rightarrow>
                 (case (py_int r, py_int g, py_int b) of
                    (Some r', Some g', Some b') \<Rightarrow>
                      update_attr_loop d ps2
                        (store_color p (''#'' @ fmt_02x r' @ fmt_02x g' @ fmt_02x b') a)
                  | _ \<Rightarrow> update_attr_loop d ps2 (store_color p '''' a))
             | _ \<Rightarrow> a)
          else update_attr_loop d ps1 (store_color p '''' a))"
proof -
  from assms have "p \<in> set [''38'', ''48'', ''58'']" by simp
  with colour_param_facts[OF assms] show ?thesis
    by (simp only: update_attr_loop.simps option.case if_False if_True simp_thms)
qed

text \<open>
  Claim C3, as amended.  At a parameter 38, 48 or 58: if the list ends
  before the colour type, before the index after \<open>5\<close>, or before the third
  component after \<open>2\<close>, the loop stops and the state is what it was before
  this parameter (nothing is left in the list to apply).  If the colour
  type is neither \<open>5\<close> nor \<open>2\<close>, the parameter and the colour type are
  skipped, no colour is stored, and the loop goes on with the parameters
  that follow in the same escape.  No case raises.
\<close>

theorem extended_color_errors:
  assumes "p \<in> {''38'', ''48'', ''58''}"
  shows "update_attr_loop d [p] a = a \<and>
         update_attr_loop d [p, ''5''] a = a \<and>
         (length xs < 3 \<longrightarrow> update_attr_loop d (p # ''2'' # xs) a = a) \<and>
         (ct \<noteq> ''5'' \<and> ct \<noteq> ''2'' \<longrightarrow>
            update_attr_loop d (p # ct # rest) a = update_attr_loop d rest a)"
proof -
  note u = loop_colour_unfold[OF assms]
  have 1: "update_attr_loop d [p] a = a" by (subst u) simp
  have 2: "update_attr_loop d [p, ''5''] a = a" by (subst u) simp
  have 3: "update_attr_loop d (p # ''2'' # xs) a = a" if "length xs < 3"
    using short_list[OF that] by (subst u) auto
  have 4: "update_attr_loop d (p # ct # rest) a = update_attr_loop d rest a"
    if "ct \<noteq> ''5''" "ct \<noteq> ''2''"
    using that by (subst u) (simp add: store_color_empty)
  from 1 2 3 4 show ?thesis by blast
qed

theorem extended_color_errors_witness:
  "''38'' \<in> {''38'', ''48'', ''58''} \<and> length [''1'', ''2''] < 3 \<and> ''9'' \<noteq> ''5'' \<and> ''9'' \<noteq> ''2'' \<and>
   update_attr_loop \<lparr>foreground = ''default'', background = ''default'', bold = False,
       underline = False\<rparr> [''38''] Map.empty = Map.empty \<and>
   update_attr_loop \<lparr>foreground = ''default'', background = ''default'', bold = False,
       underline = False\<rparr> [''38'', ''5''] Map.empty = Map.empty \<and>
   update_attr_loop \<lparr>foreground = ''default'', background = ''default'', bold = False,
       underline = False\<rparr> [''38'', ''2'', ''1'', ''2''] Map.empty = Map.empty \<and>
   update_attr_loop \<lparr>foreground = ''default'', background = ''default'', bold = False,
       underline = False\<rparr> [''38'', ''9'', ''1''] Map.empty =
     update_attr_loop \<lparr>foreground = ''default'', background = ''default'', bold = False,
       underline = False\<rparr> [''1''] Map.empty"
proof -
  have h: "''38'' \<in> {''38'', ''48'', ''58''}" by simp
  have l: "length [''1'', ''2''] < 3" by simp
  have c: "''9'' \<noteq> ''5'' \<and> ''9'' \<noteq> ''2''" by simp
  from extended_color_errors[OF h, of "\<lparr>foreground = ''default'', background = ''default'',
      bold = False, underline = False\<rparr>" Map.empty "[''1'', ''2'']" "''9''"
      "[''1'']"] h l c
  show ?thesis by blast
qed

text \<open>
  Claim C3 as stated fails: in \<open>38;9;1\<close> the colour type \<open>9\<close> is neither
  \<open>5\<close> nor \<open>2\<close>, and the parameter \<open>1\<close> that follows is applied: bold is
  set.
\<close>

theorem extended_color_errors_counterexample:
  "initial_attr \<lparr>foreground = ''default'', background = ''default'', bold = False,
       underline = False\<rparr> ''bold'' = Some (Bool False) \<and>
   update_attr \<lparr>foreground = ''default'', background = ''default'', bold = False,
       underline = False\<rparr> ''38;9;1'' [] ''m''
     (initial_attr \<lparr>foreground = ''default'', background = ''default'', bold = False,
       underline = False\<rparr>) ''bold'' = Some (Bool True)"
  by code_simp

section \<open>Truecolor and indexed colours\<close>






lemma update_attr_indexed:
  assumes "CHR '';'' \<notin> set n"
  shows "update_attr d (''38;5;'' @ n) ib ''m'' a =
         a(''fg'' \<mapsto> Str (''h'' @ (if n = [] then ''0'' else n)))"
proof -
  have "split_on CHR '';'' (''38;5;'' @ n) = [''38'', ''5'', n]"
    using assms by (simp add: split_on_none)
  then show ?thesis
    unfolding update_attr_def using loop_indexed(1)[of d _ "[]" a] by simp
qed


lemma tokens_indexed_example:
  "parse_ansi_escapes (ESC # ''[38;5;200mX'') =
   [(None, None, []), (Some CHR ''['', Some (''38;5;200'', [], ''m''), ''X'')]"
  by code_simp

lemma tokens_indexed_background_example:
  "parse_ansi_escapes (ESC # ''[48;5;999mX'') =
   [(None, None, []), (Some CHR ''['', Some (''48;5;999'', [], ''m''), ''X'')]"
  by code_simp





text \<open>
  Claim C8.  For the parameters \<open>38;5;n\<close> the foreground becomes \<open>h\<close>
  followed by the index parameter (an empty field is the parameter \<open>0\<close>,
  as everywhere in the parameter list).  In particular, for
  \<open>ESC[38;5;200m\<close> followed by \<open>X\<close> the run's attribute is the one the
  constructor makes of the foreground colour \<open>h200\<close> (followed by the
  style names that \<open>default_attr\<close> switches on) and the default background.
\<close>

theorem indexed_foreground:
  assumes "CHR '';'' \<notin> set n"
  shows "update_attr d (''38;5;'' @ n) ib ''m'' a =
           a(''fg'' \<mapsto> Str (''h'' @ (if n = [] then ''0'' else n))) \<and>
         parse_escapes_to_urwid mk (ESC # ''[38;5;200mX'') d f pbg =
           map_sum id (\<lambda>sp. ([(sp, ''X'')], [None \<mapsto> f, Some sp \<mapsto> f]))
             (mk (''h200'' @ default_mods d) (background d))"
proof -
  have "update_attr d ''38;5;200'' [] ''m'' (initial_attr d) =
        (initial_attr d)(''fg'' \<mapsto> Str ''h200'')"
    using update_attr_indexed[of "''200''" d "[]" "initial_attr d"] by simp
  from parse_one_fg[OF tokens_indexed_example _ this, of mk f pbg]
  have "parse_escapes_to_urwid mk (ESC # ''[38;5;200mX'') d f pbg =
           map_sum id (\<lambda>sp. ([(sp, ''X'')], [None \<mapsto> f, Some sp \<mapsto> f]))
             (mk (''h200'' @ default_mods d) (background d))"
    by simp
  with update_attr_indexed[OF assms] show ?thesis by simp
qed

theorem indexed_foreground_witness:
  "CHR '';'' \<notin> set ''200'' \<and>
   update_attr \<lparr>foreground = ''default'', background = ''default'', bold = False,
       underline = False\<rparr> ''38;5;200'' [] ''m'' Map.empty =
     [''fg'' \<mapsto> Str ''h200''] \<and>
   map_sum id fst (parse_escapes_to_urwid pair_spec (ESC # ''[38;5;200mX'')
       \<lparr>foreground = ''default'', background = ''default'', bold = False,
        underline = False\<rparr> ''focus'' True) =
     Inr [((''h200'', ''default''), ''X'')]"
proof -
  have h: "CHR '';'' \<notin> set ''200''" by simp
  from indexed_foreground[OF h, of "\<lparr>foreground = ''default'', background = ''default'',
      bold = False, underline = False\<rparr>" "[]" Map.empty pair_spec "''focus''" True] h
  show ?thesis by (simp add: default_mods_def pair_spec_def)
qed

text \<open>
  Claim C9: the index after \<open>38;5\<close> or \<open>48;5\<close> is not validated and parsing
  goes on without error.  The first half is what the code does: whatever
  token follows, the colour stored is \<open>h\<close> followed by that token, and the
  loop goes on with the rest of the list.  The second half the code
  breaks: for \<open>ESC[48;5;999m\<close> followed by \<open>X\<close> the stored background
  \<open>h999\<close> is handed to the constructor as it is, and the result of the
  parse is whatever the constructor makes of it: its error, for a colour it
  does not accept.
\<close>

theorem indexed_color_reaches_constructor:
  "update_attr_loop d (''38'' # ''5'' # t # rest) a =
     update_attr_loop d rest (a(''fg'' \<mapsto> Str (''h'' @ t))) \<and>
   update_attr_loop d (''48'' # ''5'' # t # rest) a =
     update_attr_loop d rest (a(''bg'' \<mapsto> Str (''h'' @ t))) \<and>
   update_attr d ''48;5;999'' ib ''m'' a = a(''bg'' \<mapsto> Str ''h999'') \<and>
   parse_escapes_to_urwid mk (ESC # ''[48;5;999mX'') d f True =
     map_sum id (\<lambda>sp. ([(sp, ''X'')], [None \<mapsto> f, Some sp \<mapsto> f]))
       (mk (foreground d @ default_mods d) ''h999'')"
proof -
  have u: "update_attr d ''48;5;999'' ib ''m'' a = a(''bg'' \<mapsto> Str ''h999'')" for ib a
    unfolding update_attr_def using loop_indexed(2)[of d "''999''" "[]" a] by simp
  from parse_one_bg[OF tokens_indexed_background_example _ u]
  have "parse_escapes_to_urwid mk (ESC # ''[48;5;999mX'') d f True =
     map_sum id (\<lambda>sp. ([(sp, ''X'')], [None \<mapsto> f, Some sp \<mapsto> f]))
       (mk (foreground d @ default_mods d) ''h999'')"
    by simp
  with u loop_indexed[of d t rest a] show ?thesis by simp
qed

section \<open>The focus map\<close>

lemma focus_inv_initial: "focus_inv f [] [None \<mapsto> f]"
  by (auto simp: focus_inv_def split: if_splits)

lemma focus_inv_step:
  assumes "focus_inv f ut uf"
  shows "focus_inv f (ut @ [(sp, s)]) (uf(Some sp \<mapsto> f))"
  using assms unfolding focus_inv_def by auto

lemma append_result:
  assumes "append_themed_infix mk d f pbg a infix (ut, uf) = Inr (ut', uf')"
  shows "(ut' = ut \<and> uf' = uf) \<or> (\<exists>sp. ut' = ut @ [(sp, infix)] \<and> uf' = uf(Some sp \<mapsto> f))"
proof (cases "infix = []")
  case True
  with assms show ?thesis by (simp add: append_themed_infix_def)
next
  case False
  from assms False obtain fg where fg: "get_str a ''fg'' = Inr fg"
    by (cases "get_str a ''fg''") (simp_all add: append_themed_infix_def)
  from assms False fg obtain bg where
    bg: "(if pbg then get_str a ''bg'' else Inr (background d)) = Inr bg"
    by (cases "if pbg then get_str a ''bg'' else Inr (background d)")
       (simp_all add: append_themed_infix_def Let_def)
  from assms append_call[OF False fg bg, of mk f ut uf]
  have "map_sum id (\<lambda>sp. (ut @ [(sp, infix)], uf(Some sp \<mapsto> f))) (mk (add_mods a fg) bg) =
        Inr (ut', uf')"
    by simp
  then show ?thesis by (cases "mk (add_mods a fg) bg") auto
qed

lemma focus_inv_append:
  assumes "append_themed_infix mk d f pbg a infix (ut, uf) = Inr (ut', uf')"
    and "focus_inv f ut uf"
  shows "focus_inv f ut' uf'"
  using append_result[OF assms(1)] assms(2) focus_inv_step[OF assms(2)] by auto

lemma process_Cons_result:
  assumes "process_segments mk d f pbg ((code, args, infix) # segs) (a, out) = Inr r"
  shows "\<exists>a1 out1. append_themed_infix mk d f pbg a1 infix out = Inr out1 \<and>
                   process_segments mk d f pbg segs (a1, out1) = Inr r"
proof -
  let ?u = "if code = Some CHR ''[''
            then (case args of None \<Rightarrow> Inl TypeError
                  | Some (pb, ib, fb) \<Rightarrow> Inr (update_attr d pb ib fb a))
            else Inr a"
  from assms obtain a1 where a1: "?u = Inr a1"
    by (cases ?u) simp_all
  with assms obtain out1 where ap: "append_themed_infix mk d f pbg a1 infix out = Inr out1"
    by (cases "append_themed_infix mk d f pbg a1 infix out") simp_all
  with assms a1 have "process_segments mk d f pbg segs (a1, out1) = Inr r" by simp
  with ap show ?thesis by blast
qed

lemma focus_inv_process:
  "process_segments mk d f pbg segs (a, ut, uf) = Inr (a', ut', uf') \<Longrightarrow>
   focus_inv f ut uf \<Longrightarrow> focus_inv f ut' uf'"
proof (induction segs arbitrary: a ut uf)
  case Nil
  then show ?case by simp
next
  case (Cons seg segs)
  obtain code args s where seg: "seg = (code, args, s)" by (cases seg)
  from process_Cons_result[OF Cons.prems(1)[unfolded seg]]
  obtain a1 out1 where ap: "append_themed_infix mk d f pbg a1 s (ut, uf) = Inr out1"
    and rest: "process_segments mk d f pbg segs (a1, out1) = Inr (a', ut', uf')"
    by blast
  obtain ut1 uf1 where out1: "out1 = (ut1, uf1)" by (cases out1)
  from focus_inv_append[OF ap[unfolded out1] Cons.prems(2)] have "focus_inv f ut1 uf1" .
  with Cons.IH[OF rest[unfolded out1]] show ?case .
qed

text \<open>
  Claim C10.  Whenever \<open>parse_escapes_to_urwid\<close> returns, every key of the
  focus map it returns has the value \<open>default_attr_focus\<close> that the caller
  passed, and the keys are \<open>None\<close> and the attributes of the runs: no key
  has a focused counterpart of its own.
\<close>

theorem focus_map_constant:
  assumes "parse_escapes_to_urwid mk text d f pbg = Inr (urwid_text, urwid_focus)"
  shows "ran urwid_focus = {f} \<and>
         dom urwid_focus = insert None (Some ` fst ` set urwid_text)"
proof -
  let ?r = "process_segments mk d f pbg (parse_ansi_escapes text)
              (initial_attr d, [], [None \<mapsto> f])"
  from assms obtain st where st: "?r = Inr st"
    by (cases ?r) (simp_all add: parse_escapes_to_urwid_def)
  obtain a' ut' uf' where st': "st = (a', ut', uf')" by (cases st)
  from assms st st' have "ut' = urwid_text" "uf' = urwid_focus"
    by (simp_all add: parse_escapes_to_urwid_def)
  with st st' have "?r = Inr (a', urwid_text, urwid_focus)" by simp
  from focus_inv_process[OF this focus_inv_initial]
  have inv: "focus_inv f urwid_text urwid_focus" .
  then have d: "dom urwid_focus = insert None (Some ` fst ` set urwid_text)"
    and v: "\<And>k v. urwid_focus k = Some v \<Longrightarrow> v = f"
    unfolding focus_inv_def by blast+
  from d have "None \<in> dom urwid_focus" by simp
  then obtain v0 where "urwid_focus None = Some v0" by blast
  with v have n: "urwid_focus None = Some f" by blast
  have "ran urwid_focus = {f}"
  proof
    show "ran urwid_focus \<subseteq> {f}" using v unfolding ran_def by blast
    show "{f} \<subseteq> ran urwid_focus" using n unfolding ran_def by blast
  qed
  with d show ?thesis by simp
qed

theorem focus_map_constant_witness:
  "parse_escapes_to_urwid pair_spec (ESC # ''[0mT'')
       \<lparr>foreground = ''default'', background = ''default'', bold = False,
        underline = False\<rparr> ''focus'' True =
     Inr ([((''default'', ''default''), ''T'')],
          [None \<mapsto> ''focus'', Some (''default'', ''default'') \<mapsto> ''focus'']) \<and>
   ran [None \<mapsto> ''focus'', Some (''default'', ''default'') \<mapsto> ''focus''] = {''focus''} \<and>
   dom [None \<mapsto> ''focus'', Some (''default'', ''default'') \<mapsto> ''focus''] =
     insert None (Some ` fst ` set [((''default'', ''default''), ''T'')])"
proof -
  have t: "ESC \<notin> set ''T''" by (simp add: ESC_def)
  have n: "''T'' \<noteq> []" by simp
  from parse_reset[OF t n, of pair_spec "\<lparr>foreground = ''default'', background = ''default'',
      bold = False, underline = False\<rparr>" "''focus''" True]
  have h: "parse_escapes_to_urwid pair_spec (ESC # ''[0mT'')
       \<lparr>foreground = ''default'', background = ''default'', bold = False,
        underline = False\<rparr> ''focus'' True =
     Inr ([((''default'', ''default''), ''T'')],
          [None \<mapsto> ''focus'', Some (''default'', ''default'') \<mapsto> ''focus''])"
    by (simp add: default_mods_def pair_spec_def)
  from focus_map_constant[OF h] h show ?thesis by blast
qed

end
